theory Spec2Isabelle
  imports Main "HOL-Library.Word"
begin

section \<open>Machine types and failures\<close>

text \<open>
  \<open>char\<close> is a byte and \<open>size_t\<close> a 64-bit unsigned integer whose arithmetic wraps
  around. The order \<open><\<close> on words is the unsigned one, so a \<open>byte\<close> compared with
  \<open><\<close> is the source's \<open>(unsigned char)\<close> cast followed by \<open><\<close>.
  A \<open>const String *\<close> is an address of a String object in the store, or the null pointer
  \<open>None\<close>; two such pointers are equal iff the addresses are.
\<close>

type_synonym byte = "8 word"
type_synonym size_t = "64 word"
type_synonym addr = nat

text \<open>
  \<open>Abort\<close> is a failed \<open>assert\<close> (the process terminates). \<open>Undefined\<close> is behaviour
  that C++ leaves undefined: dereferencing a null or dangling pointer, or reading outside
  the array a pointer points into.
\<close>

datatype error = Abort | Undefined

section \<open>The Buffer: \<open>TM::String\<close>\<close>

text \<open>
  Modelled from the spec: the class \<open>String\<close> of \<open>string.hpp\<close> is not part of the
  sources at hand. The spec (sections 1 and 6) gives its contract: a growable owned byte
  string with a total length, a bounds-checked indexed byte access that is fatal out of
  range, a raw pointer into its bytes, and an append of \<open>count\<close> bytes. A String is
  modelled by its content, the list of its bytes.
\<close>

type_synonym String = "byte list"

text \<open>The store: the String objects that are alive, by address.\<close>

type_synonym heap = "addr \<rightharpoonup> String"

text \<open>
  A \<open>const char *\<close> is modelled by what can be read through it: \<open>None\<close> is the null
  pointer, \<open>Some bs\<close> a pointer into an array, \<open>bs\<close> being the bytes from the pointee
  to the end of that array.
\<close>

type_synonym cptr = "byte list option"

text \<open>Modelled from the spec: \<open>String::length()\<close>, the total length as a \<open>size_t\<close>.\<close>

definition String_length :: "String \<Rightarrow> size_t" where
  "String_length s = of_nat (length s)"

text \<open>
  Modelled from the spec: \<open>String::c_str()\<close>, the raw pointer to the bytes. The array
  holds the content followed by a zero terminator (the source's own example runs
  \<open>strcmp\<close> on the pointer).
\<close>

definition c_str :: "String \<Rightarrow> cptr" where
  "c_str s = Some (s @ [0])"

text \<open>
  Modelled from the spec: \<open>String::at(index)\<close>, the checked byte access, fatal when
  the index is out of range.
\<close>

definition String_at :: "String \<Rightarrow> size_t \<Rightarrow> error + byte" where
  "String_at s index =
     (if index < String_length s then Inr (s ! unat index) else Inl Abort)"

text \<open>
  Modelled from the spec: \<open>String::operator[](index)\<close>, the unchecked byte access:
  a plain read of the character array, undefined outside of it.
\<close>

definition String_index :: "String \<Rightarrow> size_t \<Rightarrow> error + byte" where
  "String_index s index =
     (if unat index < length (s @ [0]) then Inr ((s @ [0]) ! unat index)
      else Inl Undefined)"

text \<open>Modelled from the spec: \<open>String()\<close>, the empty String.\<close>

definition String_empty :: String where
  "String_empty = []"

text \<open>
  Modelled from the spec: \<open>String(const char *, size_t)\<close>, the String that owns a copy
  of the \<open>n\<close> bytes at the pointer.
\<close>

definition String_of_bytes :: "cptr \<Rightarrow> size_t \<Rightarrow> error + String" where
  "String_of_bytes p n =
     (case p of
        None \<Rightarrow> Inl Undefined
      | Some bs \<Rightarrow> if unat n \<le> length bs then Inr (take (unat n) bs) else Inl Undefined)"

text \<open>Modelled from the spec: \<open>String::clone()\<close>, an owned copy of the String.\<close>

definition String_clone :: "String \<Rightarrow> String" where
  "String_clone s = s"

text \<open>
  Modelled from the spec: \<open>String::append(const char *, size_t)\<close>, which extends the
  content by the \<open>n\<close> bytes at the pointer. The result is the new content of the
  String. The contract leaves it to the caller that the bytes appended are not part of
  the String appended to.
\<close>

definition String_append :: "String \<Rightarrow> cptr \<Rightarrow> size_t \<Rightarrow> error + String" where
  "String_append s p n =
     (case p of
        None \<Rightarrow> Inl Undefined
      | Some bs \<Rightarrow> if unat n \<le> length bs then Inr (s @ take (unat n) bs) else Inl Undefined)"

section \<open>Pointers and the C library\<close>

text \<open>Reading the String a \<open>const String *\<close> points to.\<close>

definition deref :: "heap \<Rightarrow> addr option \<Rightarrow> error + String" where
  "deref h p =
     (case p of
        None \<Rightarrow> Inl Undefined
      | Some a \<Rightarrow> (case h a of None \<Rightarrow> Inl Undefined | Some s \<Rightarrow> Inr s))"

text \<open>
  Pointer arithmetic \<open>p + n\<close> on a \<open>const char *\<close>: defined up to one past the end of
  the array.
\<close>

definition ptr_add :: "cptr \<Rightarrow> size_t \<Rightarrow> error + cptr" where
  "ptr_add p n =
     (case p of
        None \<Rightarrow> Inl Undefined
      | Some bs \<Rightarrow> if unat n \<le> length bs then Inr (Some (drop (unat n) bs)) else Inl Undefined)"

text \<open>\<open>strlen\<close>: the number of bytes before the first zero byte.\<close>

definition strlen :: "cptr \<Rightarrow> error + size_t" where
  "strlen p =
     (case p of
        None \<Rightarrow> Inl Undefined
      | Some bs \<Rightarrow>
          if 0 \<in> set bs then Inr (of_nat (length (takeWhile (\<lambda>b. b \<noteq> 0) bs)))
          else Inl Undefined)"

text \<open>
  \<open>memcmp\<close> on the first \<open>n\<close> bytes of two arrays: the sign of the first difference
  of two bytes, read as unsigned, and 0 when there is none.
\<close>

fun bytes_cmp :: "byte list \<Rightarrow> byte list \<Rightarrow> int" where
  "bytes_cmp (x # xs) (y # ys) =
     (if x < y then - 1 else if y < x then 1 else bytes_cmp xs ys)"
| "bytes_cmp xs ys = 0"

definition memcmp :: "cptr \<Rightarrow> cptr \<Rightarrow> size_t \<Rightarrow> error + int" where
  "memcmp p q n =
     (case p of
        None \<Rightarrow> Inl Undefined
      | Some as \<Rightarrow>
          (case q of
             None \<Rightarrow> Inl Undefined
           | Some bs \<Rightarrow>
               if unat n \<le> length as \<and> unat n \<le> length bs
               then Inr (bytes_cmp (take (unat n) as) (take (unat n) bs))
               else Inl Undefined))"

section \<open>The View: \<open>TM::StringView\<close>\<close>

record StringView =
  m_string :: "addr option"
  m_offset :: size_t
  m_length :: size_t

subsection \<open>Constructors\<close>

text \<open>\<open>StringView()\<close>: the members keep their default initialisers.\<close>

definition StringView_default :: StringView where
  "StringView_default = \<lparr>m_string = None, m_offset = 0, m_length = 0\<rparr>"

text \<open>\<open>StringView(const String *string)\<close>.\<close>

definition StringView_of :: "heap \<Rightarrow> addr option \<Rightarrow> error + StringView" where
  "StringView_of h string =
     (case deref h string of
        Inl e \<Rightarrow> Inl e
      | Inr s \<Rightarrow> Inr \<lparr>m_string = string, m_offset = 0, m_length = String_length s\<rparr>)"

text \<open>
  \<open>StringView(const String *string, size_t offset)\<close>: the members are initialised
  first (the subtraction wraps around), then the assertion runs.
\<close>

definition StringView_of_offset :: "heap \<Rightarrow> addr option \<Rightarrow> size_t \<Rightarrow> error + StringView" where
  "StringView_of_offset h string offset =
     (case deref h string of
        Inl e \<Rightarrow> Inl e
      | Inr s \<Rightarrow>
          (let v = \<lparr>m_string = string, m_offset = offset,
                    m_length = String_length s - offset\<rparr>
           in if offset \<le> String_length s then Inr v else Inl Abort))"

text \<open>\<open>StringView(const String *string, size_t offset, size_t length)\<close>.\<close>

definition StringView_of_offset_length ::
  "heap \<Rightarrow> addr option \<Rightarrow> size_t \<Rightarrow> size_t \<Rightarrow> error + StringView" where
  "StringView_of_offset_length h string offset len =
     (case deref h string of
        Inl e \<Rightarrow> Inl e
      | Inr s \<Rightarrow>
          (let v = \<lparr>m_string = string, m_offset = offset, m_length = len\<rparr>
           in if \<not> offset \<le> String_length s then Inl Abort
              else if \<not> len \<le> String_length s - offset then Inl Abort
              else Inr v))"

subsection \<open>Accessors\<close>

definition offset :: "StringView \<Rightarrow> size_t" where
  "offset v = m_offset v"

definition size_view :: "StringView \<Rightarrow> size_t" where
  "size_view v = m_length v"

definition length_view :: "StringView \<Rightarrow> size_t" where
  "length_view v = m_length v"

definition is_empty :: "StringView \<Rightarrow> bool" where
  "is_empty v = (m_length v = 0)"

text \<open>\<open>at(index)\<close>: the assertion on the pointer, then the String's checked access.\<close>

definition at :: "heap \<Rightarrow> StringView \<Rightarrow> size_t \<Rightarrow> error + byte" where
  "at h v index =
     (case m_string v of
        None \<Rightarrow> Inl Abort
      | Some a \<Rightarrow>
          (case deref h (Some a) of
             Inl e \<Rightarrow> Inl e
           | Inr s \<Rightarrow> String_at s (m_offset v + index)))"

text \<open>\<open>operator[](index)\<close>: the assertion on the pointer, then the unchecked access.\<close>

definition operator_index :: "heap \<Rightarrow> StringView \<Rightarrow> size_t \<Rightarrow> error + byte" where
  "operator_index h v index =
     (case m_string v of
        None \<Rightarrow> Inl Abort
      | Some a \<Rightarrow>
          (case deref h (Some a) of
             Inl e \<Rightarrow> Inl e
           | Inr s \<Rightarrow> String_index s (m_offset v + index)))"

definition dangerous_pointer_to_underlying_data :: "heap \<Rightarrow> StringView \<Rightarrow> error + cptr" where
  "dangerous_pointer_to_underlying_data h v =
     (case m_string v of
        None \<Rightarrow> Inl Abort
      | Some a \<Rightarrow>
          (case deref h (Some a) of
             Inl e \<Rightarrow> Inl e
           | Inr s \<Rightarrow> ptr_add (c_str s) (m_offset v)))"

subsection \<open>Equality\<close>

text \<open>\<open>operator==(const char *other)\<close>.\<close>

definition operator_eq_cstr :: "heap \<Rightarrow> StringView \<Rightarrow> cptr \<Rightarrow> error + bool" where
  "operator_eq_cstr h v other =
     (if other = None \<and> m_string v = None then Inr True
      else
        (case strlen other of
           Inl e \<Rightarrow> Inl e
         | Inr other_length \<Rightarrow>
             if m_string v = None \<and> other_length = 0 then Inr True
             else if m_string v = None then Inr False
             else if m_length v \<noteq> other_length then Inr False
             else
               (case deref h (m_string v) of
                  Inl e \<Rightarrow> Inl e
                | Inr s \<Rightarrow>
                    (case ptr_add (c_str s) (m_offset v) of
                       Inl e \<Rightarrow> Inl e
                     | Inr p \<Rightarrow>
                         (case memcmp p other (m_length v) of
                            Inl e \<Rightarrow> Inl e
                          | Inr r \<Rightarrow> Inr (r = 0))))))"

text \<open>\<open>operator==(const char other)\<close>: \<open>&&\<close> reads the byte only when the length is 1.\<close>

definition operator_eq_char :: "heap \<Rightarrow> StringView \<Rightarrow> byte \<Rightarrow> error + bool" where
  "operator_eq_char h v other =
     (if m_length v = 1 then
        (case deref h (m_string v) of
           Inl e \<Rightarrow> Inl e
         | Inr s \<Rightarrow>
             (case String_index s (m_offset v) of
                Inl e \<Rightarrow> Inl e
              | Inr c \<Rightarrow> Inr (c = other)))
      else Inr False)"

text \<open>\<open>operator==(const StringView &other)\<close>.\<close>

definition operator_eq :: "heap \<Rightarrow> StringView \<Rightarrow> StringView \<Rightarrow> error + bool" where
  "operator_eq h v other =
     (if m_length v \<noteq> m_length other then Inr False
      else if m_length v = 0 then Inr True
      else if m_string v = m_string other \<and> m_offset v = m_offset other then Inr True
      else
        (case deref h (m_string v) of
           Inl e \<Rightarrow> Inl e
         | Inr s \<Rightarrow>
             (case ptr_add (c_str s) (m_offset v) of
                Inl e \<Rightarrow> Inl e
              | Inr p \<Rightarrow>
                  (case deref h (m_string other) of
                     Inl e \<Rightarrow> Inl e
                   | Inr t \<Rightarrow>
                       (case ptr_add (c_str t) (m_offset other) of
                          Inl e \<Rightarrow> Inl e
                        | Inr q \<Rightarrow>
                            (case memcmp p q (m_length v) of
                               Inl e \<Rightarrow> Inl e
                             | Inr r \<Rightarrow> Inr (r = 0)))))))"

text \<open>\<open>operator==(const String &other)\<close>: the String is an object of the store.\<close>

definition operator_eq_String :: "heap \<Rightarrow> StringView \<Rightarrow> addr \<Rightarrow> error + bool" where
  "operator_eq_String h v other =
     (case StringView_of h (Some other) of
        Inl e \<Rightarrow> Inl e
      | Inr w \<Rightarrow> operator_eq h v w)"

subsection \<open>Three-way comparison\<close>

text \<open>
  The \<open>for\<close> loop of \<open>cmp\<close> from index \<open>i\<close> on, followed by the comparison of the
  lengths that the source makes once the loop is left.
\<close>

function cmp_loop :: "heap \<Rightarrow> StringView \<Rightarrow> StringView \<Rightarrow> size_t \<Rightarrow> error + int" where
  "cmp_loop h v other i =
     (if i < min (m_length v) (m_length other) then
        (case operator_index h v i of
           Inl e \<Rightarrow> Inl e
         | Inr c1 \<Rightarrow>
             (case operator_index h other i of
                Inl e \<Rightarrow> Inl e
              | Inr c2 \<Rightarrow>
                  if c1 < c2 then Inr (- 1)
                  else if c1 > c2 then Inr 1
                  else cmp_loop h v other (i + 1)))
      else if m_length v = m_length other then Inr 0
      else if m_length v < m_length other then Inr (- 1)
      else Inr 1)"
  by pat_completeness auto

termination cmp_loop
proof (relation "measure (\<lambda>(h, v, other, i). unat (min (m_length v) (m_length other)) - unat i)")
  show "wf (measure (\<lambda>(h, v, other, i). unat (min (m_length v) (m_length other)) - unat i))"
    by simp
next
  fix h :: heap and v other :: StringView and i :: size_t and c1 c2 :: byte
  assume less: "i < min (m_length v) (m_length other)"
  then have below: "unat i < unat (min (m_length v) (m_length other))"
    by (simp add: word_less_nat_alt)
  moreover have "unat (min (m_length v) (m_length other)) < 2 ^ LENGTH(64)"
    by (rule unsigned_less)
  ultimately have "Suc (unat i) < 2 ^ LENGTH(64)"
    by linarith
  then have "unat i + unat (1 :: size_t) < 2 ^ LENGTH(64)"
    by simp
  then have "unat (i + 1) = unat i + unat (1 :: size_t)"
    by (simp only: unat_add_lem)
  with below show "((h, v, other, i + 1), (h, v, other, i))
      \<in> measure (\<lambda>(h, v, other, i). unat (min (m_length v) (m_length other)) - unat i)"
    by simp
qed

declare cmp_loop.simps [simp del]

text \<open>\<open>cmp(const StringView &other)\<close>.\<close>

definition cmp :: "heap \<Rightarrow> StringView \<Rightarrow> StringView \<Rightarrow> error + int" where
  "cmp h v other =
     (if m_length v = 0 then (if m_length other = 0 then Inr 0 else Inr (- 1))
      else cmp_loop h v other 0)"

text \<open>\<open>cmp(const String &other)\<close>.\<close>

definition cmp_String :: "heap \<Rightarrow> StringView \<Rightarrow> addr \<Rightarrow> error + int" where
  "cmp_String h v other =
     (case StringView_of h (Some other) of
        Inl e \<Rightarrow> Inl e
      | Inr w \<Rightarrow> cmp h v w)"

subsection \<open>Conversion to an owned String\<close>

definition to_string :: "heap \<Rightarrow> StringView \<Rightarrow> error + String" where
  "to_string h v =
     (if m_string v = None then Inr String_empty
      else
        (case deref h (m_string v) of
           Inl e \<Rightarrow> Inl e
         | Inr s \<Rightarrow>
             (case ptr_add (c_str s) (m_offset v) of
                Inl e \<Rightarrow> Inl e
              | Inr p \<Rightarrow> String_of_bytes p (m_length v))))"

text \<open>\<open>operator String()\<close>.\<close>

definition operator_String :: "heap \<Rightarrow> StringView \<Rightarrow> error + String" where
  "operator_String h v = to_string h v"

definition clone :: "heap \<Rightarrow> StringView \<Rightarrow> error + String" where
  "clone h v = to_string h v"

subsection \<open>Concatenation\<close>

text \<open>
  \<open>operator+(const String &lhs, const StringView &rhs)\<close>. The left operand is an
  object of the store, given by its address. The function writes to its local \<open>res\<close>
  only, which it returns: the store is read, and stays as it is.
\<close>

definition operator_plus :: "heap \<Rightarrow> addr \<Rightarrow> StringView \<Rightarrow> error + String" where
  "operator_plus h lhs rhs =
     (case deref h (Some lhs) of
        Inl e \<Rightarrow> Inl e
      | Inr s \<Rightarrow>
          (let res = String_clone s
           in case dangerous_pointer_to_underlying_data h rhs of
                Inl e \<Rightarrow> Inl e
              | Inr p \<Rightarrow> String_append res p (size_view rhs)))"

text \<open>
  \<open>operator+=(String &lhs, const StringView &rhs)\<close>. The left operand is changed in
  place: the result is the store after the call.
\<close>

definition operator_plus_assign :: "heap \<Rightarrow> addr \<Rightarrow> StringView \<Rightarrow> error + heap" where
  "operator_plus_assign h lhs rhs =
     (case deref h (Some lhs) of
        Inl e \<Rightarrow> Inl e
      | Inr s \<Rightarrow>
          (case dangerous_pointer_to_underlying_data h rhs of
             Inl e \<Rightarrow> Inl e
           | Inr p \<Rightarrow>
               (case String_append s p (size_view rhs) of
                  Inl e \<Rightarrow> Inl e
                | Inr s' \<Rightarrow> Inr (h(lhs \<mapsto> s')))))"

section \<open>Valid views and their visible bytes\<close>

text \<open>
  The invariant of the data model: an absent view has offset 0 and length 0; a present
  view points to a String that is alive, and its range lies within that String. The
  length of a String fits a \<open>size_t\<close>.
\<close>

definition valid :: "heap \<Rightarrow> StringView \<Rightarrow> bool" where
  "valid h v =
     (case m_string v of
        None \<Rightarrow> m_offset v = 0 \<and> m_length v = 0
      | Some a \<Rightarrow>
          (case h a of
             None \<Rightarrow> False
           | Some s \<Rightarrow>
               length s < 2 ^ 64 \<and> unat (m_offset v) + unat (m_length v) \<le> length s))"

text \<open>The bytes a view shows: \<open>m_length\<close> bytes of its String from \<open>m_offset\<close> on.\<close>

definition visible :: "heap \<Rightarrow> StringView \<Rightarrow> byte list" where
  "visible h v =
     (case m_string v of
        None \<Rightarrow> []
      | Some a \<Rightarrow>
          (case h a of
             None \<Rightarrow> []
           | Some s \<Rightarrow> take (unat (m_length v)) (drop (unat (m_offset v)) s)))"

text \<open>
  The three-way comparison in the words of the specification: bytes are compared
  pairwise, as unsigned values, up to the shorter length; the first difference decides;
  without one the shorter list is less, and lists of equal length are equal.
\<close>

fun lexicographic_cmp :: "byte list \<Rightarrow> byte list \<Rightarrow> int" where
  "lexicographic_cmp (x # xs) (y # ys) =
     (if x < y then - 1 else if y < x then 1 else lexicographic_cmp xs ys)"
| "lexicographic_cmp xs ys =
     (if length xs = length ys then 0 else if length xs < length ys then - 1 else 1)"

text \<open>The bytes of a C string: those before the first zero byte.\<close>

definition cstr_bytes :: "byte list \<Rightarrow> byte list" where
  "cstr_bytes bs = takeWhile (\<lambda>b. b \<noteq> 0) bs"

section \<open>A store of examples\<close>

text \<open>
  Five Strings: \<open>"abc"\<close> at the address 0, \<open>"foo-bar-baz"\<close> at 2,
  \<open>"xxxbar"\<close> at 3, \<open>"cdefg"\<close> at 4 and \<open>"abcdef"\<close> at 5, each byte by its
  code.
\<close>

definition example_store :: heap where
  "example_store =
     [0 \<mapsto> [97, 98, 99],
      2 \<mapsto> [102, 111, 111, 45, 98, 97, 114, 45, 98, 97, 122],
      3 \<mapsto> [120, 120, 120, 98, 97, 114],
      4 \<mapsto> [99, 100, 101, 102, 103],
      5 \<mapsto> [97, 98, 99, 100, 101, 102]]"

section \<open>Basic facts\<close>

lemma deref_alive: "h a = Some s \<Longrightarrow> deref h (Some a) = Inr s"
  by (simp add: deref_def)

lemma unat_String_length: "length s < 2 ^ 64 \<Longrightarrow> unat (String_length s) = length s"
  by (simp add: String_length_def unat_of_nat)

lemma valid_present:
  "valid h v \<Longrightarrow> m_string v = Some a \<Longrightarrow>
   \<exists>s. h a = Some s \<and> length s < 2 ^ 64 \<and> unat (m_offset v) + unat (m_length v) \<le> length s"
  by (auto simp: valid_def split: option.splits)

lemma visible_present:
  "m_string v = Some a \<Longrightarrow> h a = Some s \<Longrightarrow>
   visible h v = take (unat (m_length v)) (drop (unat (m_offset v)) s)"
  by (simp add: visible_def)

lemma length_visible: "valid h v \<Longrightarrow> length (visible h v) = unat (m_length v)"
  by (auto simp: valid_def visible_def split: option.splits)

lemma data_pointer_present:
  assumes "unat (m_offset v) + unat (m_length v) \<le> length s"
  shows "ptr_add (c_str s) (m_offset v) = Inr (Some (drop (unat (m_offset v)) (s @ [0])))"
  using assms by (simp add: ptr_add_def c_str_def)

lemma bytes_cmp_zero: "length xs = length ys \<Longrightarrow> bytes_cmp xs ys = 0 \<longleftrightarrow> xs = ys"
  by (induction xs ys rule: bytes_cmp.induct) auto

section \<open>Construction\<close>

text \<open>
  What the constructors build is valid, as long as the String is alive and its length
  fits a \<open>size_t\<close>.
\<close>

lemma constructed_valid:
  assumes alive: "h a = Some s" and fits: "length s < 2 ^ 64"
  shows "valid h StringView_default"
    and "StringView_of h (Some a) = Inr v \<Longrightarrow> valid h v"
    and "StringView_of_offset h (Some a) off = Inr v \<Longrightarrow> valid h v"
    and "StringView_of_offset_length h (Some a) off len = Inr v \<Longrightarrow> valid h v"
proof -
  have whole: "unat (String_length s) = length s"
    by (rule unat_String_length [OF fits])
  have rest: "unat (String_length s - off) = length s - unat off" if "off \<le> String_length s"
    using that whole by (simp add: unat_sub)
  show "valid h StringView_default"
    by (simp add: valid_def StringView_default_def)
  show "valid h v" if "StringView_of h (Some a) = Inr v"
    using that alive fits whole
    by (auto simp: StringView_of_def deref_def valid_def)
  show "valid h v" if "StringView_of_offset h (Some a) off = Inr v"
    using that alive fits whole rest
    by (auto simp: StringView_of_offset_def deref_def valid_def Let_def word_le_nat_alt
        split: if_splits)
  show "valid h v" if "StringView_of_offset_length h (Some a) off len = Inr v"
    using that alive fits whole rest
    by (auto simp: StringView_of_offset_length_def deref_def valid_def Let_def word_le_nat_alt
        split: if_splits)
qed

text \<open>
  C4. Constructing a view of a String with an offset greater than the String's length
  aborts, with the constructor that takes an offset and with the one that takes an offset
  and a length; constructing with a length greater than the String's length minus the
  offset aborts. With an offset that is at most the String's length, and a length that is
  at most the String's length minus the offset, construction succeeds and stores the
  offset and the length given; the constructor that takes only an offset stores the
  String's length minus the offset as the length.
\<close>

theorem construction_bounds:
  "h a = Some s \<Longrightarrow>
   (String_length s < off \<longrightarrow>
      StringView_of_offset h (Some a) off = Inl Abort \<and>
      StringView_of_offset_length h (Some a) off len = Inl Abort) \<and>
   (String_length s - off < len \<longrightarrow>
      StringView_of_offset_length h (Some a) off len = Inl Abort) \<and>
   (off \<le> String_length s \<longrightarrow>
      StringView_of_offset h (Some a) off =
        Inr \<lparr>m_string = Some a, m_offset = off, m_length = String_length s - off\<rparr>) \<and>
   (off \<le> String_length s \<and> len \<le> String_length s - off \<longrightarrow>
      StringView_of_offset_length h (Some a) off len =
        Inr \<lparr>m_string = Some a, m_offset = off, m_length = len\<rparr>)"
  by (auto simp: StringView_of_offset_def StringView_of_offset_length_def deref_alive
      Let_def)

theorem construction_bounds_witness:
  "example_store 0 = Some [97, 98, 99] \<and>
   StringView_of_offset example_store (Some 0) 4 = Inl Abort \<and>
   StringView_of_offset_length example_store (Some 0) 4 0 = Inl Abort \<and>
   StringView_of_offset_length example_store (Some 0) 1 3 = Inl Abort \<and>
   StringView_of_offset example_store (Some 0) 3 =
     Inr \<lparr>m_string = Some 0, m_offset = 3, m_length = 0\<rparr> \<and>
   StringView_of_offset_length example_store (Some 0) 1 2 =
     Inr \<lparr>m_string = Some 0, m_offset = 1, m_length = 2\<rparr>"
proof -
  have alive: "example_store 0 = Some [97, 98, 99]"
    by (simp add: example_store_def)
  have len: "String_length [97, 98, 99] = 3"
    by (simp add: String_length_def)
  show ?thesis
    using alive
      construction_bounds [of example_store 0 "[97, 98, 99]" 4 0]
      construction_bounds [of example_store 0 "[97, 98, 99]" 1 3]
      construction_bounds [of example_store 0 "[97, 98, 99]" 3 0]
      construction_bounds [of example_store 0 "[97, 98, 99]" 1 2]
    by (simp add: len)
qed

section \<open>Equality with a character\<close>

lemma String_index_inside: "n < length s \<Longrightarrow> n = unat i \<Longrightarrow> String_index s i = Inr (s ! n)"
  by (simp add: String_index_def nth_append)

text \<open>
  C8. Equality of a view with a single character is true iff the length of the view is
  exactly 1 and its one visible byte is that character; on a view whose length is not 1,
  the absent view included, it is false. The first part is about valid views; the second
  holds of every view, since the byte is read only when the length is 1.
\<close>

theorem char_equality:
  "(valid h v \<longrightarrow>
      operator_eq_char h v c = Inr (m_length v = 1 \<and> visible h v = [c])) \<and>
   (m_length v \<noteq> 1 \<longrightarrow> operator_eq_char h v c = Inr False)"
proof (intro conjI impI)
  assume "m_length v \<noteq> 1"
  then show "operator_eq_char h v c = Inr False"
    by (simp add: operator_eq_char_def)
next
  assume ok: "valid h v"
  show "operator_eq_char h v c = Inr (m_length v = 1 \<and> visible h v = [c])"
  proof (cases "m_length v = 1")
    case False
    then show ?thesis by (simp add: operator_eq_char_def)
  next
    case True
    with ok obtain a where a: "m_string v = Some a"
      by (cases "m_string v") (auto simp: valid_def)
    from valid_present [of h v a, OF ok a] True obtain s where s: "h a = Some s"
      and inside: "unat (m_offset v) < length s"
      by auto
    have "visible h v = [s ! unat (m_offset v)]"
      using inside True
      by (simp add: visible_present [of v a h s, OF a s] hd_drop_conv_nth take_Suc)
    moreover have "operator_eq_char h v c = Inr (s ! unat (m_offset v) = c)"
      using True inside
      by (simp add: operator_eq_char_def a deref_alive [of h a s, OF s] String_index_inside)
    ultimately show ?thesis using True by simp
  qed
qed

theorem char_equality_witness:
  "valid example_store \<lparr>m_string = Some 0, m_offset = 1, m_length = 1\<rparr> \<and>
   operator_eq_char example_store \<lparr>m_string = Some 0, m_offset = 1, m_length = 1\<rparr> 98 = Inr True \<and>
   operator_eq_char example_store \<lparr>m_string = Some 0, m_offset = 1, m_length = 1\<rparr> 99 = Inr False \<and>
   m_length \<lparr>m_string = Some 0, m_offset = 1, m_length = 2\<rparr> \<noteq> 1 \<and>
   operator_eq_char example_store \<lparr>m_string = Some 0, m_offset = 1, m_length = 2\<rparr> 98 = Inr False \<and>
   m_length StringView_default \<noteq> 1 \<and>
   operator_eq_char example_store StringView_default 98 = Inr False"
proof -
  have alive: "example_store 0 = Some [97, 98, 99]"
    by (simp add: example_store_def)
  have ok: "valid example_store \<lparr>m_string = Some 0, m_offset = 1, m_length = 1\<rparr>"
    by (simp add: valid_def alive)
  have shown: "visible example_store \<lparr>m_string = Some 0, m_offset = 1, m_length = 1\<rparr> = [98]"
    by (simp add: visible_def alive)
  show ?thesis
    using ok
      char_equality [of example_store "\<lparr>m_string = Some 0, m_offset = 1, m_length = 1\<rparr>" 98]
      char_equality [of example_store "\<lparr>m_string = Some 0, m_offset = 1, m_length = 1\<rparr>" 99]
      char_equality [of example_store "\<lparr>m_string = Some 0, m_offset = 1, m_length = 2\<rparr>" 98]
      char_equality [of example_store StringView_default 98]
    by (simp add: shown StringView_default_def)
qed

section \<open>Checked access\<close>

lemma wrapped_sum_below:
  fixes x y N :: nat
  assumes "x < N" and "y < N" and "\<not> x + y < N"
  shows "(x + y) mod N < x"
proof -
  from assms have "(x + y) mod N = (x + y - N) mod N"
    by (simp add: le_mod_geq)
  also from assms have "\<dots> = x + y - N"
    by simp
  finally show ?thesis
    using assms by simp
qed

text \<open>
  C9. The checked access \<open>at(i)\<close> on a present view checks the bounds of the String,
  not the length of the view. It aborts iff \<open>m_offset + i\<close>, the sum the source
  computes in \<open>size_t\<close>, is not an index of the String. For an index \<open>i\<close> that is at
  least the length of the view while \<open>m_offset + i\<close> is an index of the String, it returns
  the byte of the String at that index, and when the view is valid that index is outside
  the range \<open>m_offset \<dots> m_offset + m_length - 1\<close> that the view shows.
\<close>

theorem checked_access_bounds:
  "m_string v = Some a \<Longrightarrow> h a = Some s \<Longrightarrow>
   (at h v i = Inl Abort \<longleftrightarrow> \<not> m_offset v + i < String_length s) \<and>
   (m_length v \<le> i \<and> m_offset v + i < String_length s \<longrightarrow>
      at h v i = Inr (s ! unat (m_offset v + i)) \<and>
      unat (m_offset v + i) < length s \<and>
      (valid h v \<longrightarrow>
         \<not> (unat (m_offset v) \<le> unat (m_offset v + i) \<and>
            unat (m_offset v + i) < unat (m_offset v) + unat (m_length v))))"
proof (intro conjI impI)
  assume a: "m_string v = Some a" and s: "h a = Some s"
  show "at h v i = Inl Abort \<longleftrightarrow> \<not> m_offset v + i < String_length s"
    by (simp add: at_def a deref_alive [of h a s, OF s] String_at_def)
  assume i: "m_length v \<le> i \<and> m_offset v + i < String_length s"
  then show "at h v i = Inr (s ! unat (m_offset v + i))"
    by (simp add: at_def a deref_alive [of h a s, OF s] String_at_def)
  from i have "unat (m_offset v + i) < unat (String_length s)"
    by (simp add: word_less_nat_alt)
  also have "\<dots> \<le> length s"
    by (simp add: String_length_def unat_of_nat)
  finally show "unat (m_offset v + i) < length s" .
  show "\<not> (unat (m_offset v) \<le> unat (m_offset v + i) \<and>
         unat (m_offset v + i) < unat (m_offset v) + unat (m_length v))"
  proof (cases "unat (m_offset v) + unat i < 2 ^ LENGTH(64)")
    case True
    then have "unat (m_offset v + i) = unat (m_offset v) + unat i"
      by (simp only: unat_add_lem)
    moreover from i have "unat (m_length v) \<le> unat i"
      by (simp add: word_le_nat_alt)
    ultimately show ?thesis by simp
  next
    case False
    have "unat (m_offset v + i) = (unat (m_offset v) + unat i) mod 2 ^ LENGTH(64)"
      by (simp only: unat_word_ariths)
    also have "\<dots> < unat (m_offset v)"
      by (rule wrapped_sum_below [OF unsigned_less unsigned_less False])
    finally show ?thesis by simp
  qed
qed

theorem checked_access_bounds_witness:
  "m_string \<lparr>m_string = Some 2, m_offset = 4, m_length = 3\<rparr> = Some 2 \<and>
   example_store 2 = Some [102, 111, 111, 45, 98, 97, 114, 45, 98, 97, 122] \<and>
   valid example_store \<lparr>m_string = Some 2, m_offset = 4, m_length = 3\<rparr> \<and>
   at example_store \<lparr>m_string = Some 2, m_offset = 4, m_length = 3\<rparr> 10 = Inl Abort \<and>
   at example_store \<lparr>m_string = Some 2, m_offset = 4, m_length = 3\<rparr> 5 = Inr 97"
proof -
  have alive: "example_store 2 = Some [102, 111, 111, 45, 98, 97, 114, 45, 98, 97, 122]"
    by (simp add: example_store_def)
  have len: "String_length [102, 111, 111, 45, 98, 97, 114, 45, 98, 97, 122] = 11"
    by (simp add: String_length_def)
  have ok: "valid example_store \<lparr>m_string = Some 2, m_offset = 4, m_length = 3\<rparr>"
    by (simp add: valid_def alive)
  show ?thesis
    using alive ok
      checked_access_bounds [of "\<lparr>m_string = Some 2, m_offset = 4, m_length = 3\<rparr>" 2
        example_store "[102, 111, 111, 45, 98, 97, 114, 45, 98, 97, 122]" 10]
      checked_access_bounds [of "\<lparr>m_string = Some 2, m_offset = 4, m_length = 3\<rparr>" 2
        example_store "[102, 111, 111, 45, 98, 97, 114, 45, 98, 97, 122]" 5]
    by (simp add: len)
qed

section \<open>Concatenation of an absent view\<close>

text \<open>
  C10. Concatenating an absent view aborts: \<open>dangerous_pointer_to_underlying_data\<close>
  asserts that the view has a String, and both \<open>operator+\<close> and \<open>operator+=\<close> call it,
  so that on an absent view, of length 0, they abort where an append of zero bytes would
  have changed nothing.
\<close>

theorem absent_concatenation_aborts:
  "m_string rhs = None \<Longrightarrow> h lhs = Some s \<Longrightarrow>
   dangerous_pointer_to_underlying_data h rhs = Inl Abort \<and>
   operator_plus h lhs rhs = Inl Abort \<and>
   operator_plus_assign h lhs rhs = Inl Abort"
  by (simp add: dangerous_pointer_to_underlying_data_def operator_plus_def
      operator_plus_assign_def deref_def)

theorem absent_concatenation_aborts_witness:
  "m_string StringView_default = None \<and> m_length StringView_default = 0 \<and>
   example_store 0 = Some [97, 98, 99] \<and>
   operator_plus example_store 0 StringView_default = Inl Abort \<and>
   operator_plus_assign example_store 0 StringView_default = Inl Abort"
proof -
  have alive: "example_store 0 = Some [97, 98, 99]"
    by (simp add: example_store_def)
  have absent: "m_string StringView_default = None"
    by (simp add: StringView_default_def)
  show ?thesis
    using alive absent
      absent_concatenation_aborts [of StringView_default example_store 0 "[97, 98, 99]"]
    by (simp add: StringView_default_def)
qed

section \<open>Conversion to an owned String\<close>

lemma visible_absent: "m_string v = None \<Longrightarrow> visible h v = []"
  by (simp add: visible_def)

lemma to_string_present:
  assumes ok: "valid h v" and a: "m_string v = Some a"
  shows "to_string h v = Inr (visible h v)"
proof -
  from valid_present [of h v a, OF ok a] obtain s where s: "h a = Some s"
    and range: "unat (m_offset v) + unat (m_length v) \<le> length s"
    by auto
  have "String_of_bytes (Some (drop (unat (m_offset v)) (s @ [0]))) (m_length v) =
      Inr (take (unat (m_length v)) (drop (unat (m_offset v)) s))"
    using range by (simp add: String_of_bytes_def)
  then show ?thesis
    using range
    by (simp add: to_string_def a deref_alive [of h a s, OF s]
        data_pointer_present [of v s, OF range] visible_present [of v a h s, OF a s])
qed

text \<open>
  C6. \<open>to_string()\<close>, the conversion operator to String and \<open>clone()\<close> are the same
  operation: on the same view the three results are equal. The result is an owned String,
  a value of its own, that holds the visible bytes of the view: the \<open>m_length\<close> bytes
  from \<open>m_offset\<close> on. An absent view gives the empty String.
\<close>

theorem conversions_agree:
  "operator_String h v = to_string h v \<and>
   clone h v = to_string h v \<and>
   (m_string v = None \<longrightarrow> to_string h v = Inr String_empty \<and> String_empty = []) \<and>
   (valid h v \<longrightarrow> to_string h v = Inr (visible h v))"
proof (intro conjI impI)
  show "operator_String h v = to_string h v"
    by (simp add: operator_String_def)
  show "clone h v = to_string h v"
    by (simp add: clone_def)
  show "to_string h v = Inr String_empty" if "m_string v = None"
    using that by (simp add: to_string_def)
  show "String_empty = []"
    by (simp add: String_empty_def)
  show "to_string h v = Inr (visible h v)" if "valid h v"
  proof (cases "m_string v")
    case None
    then show ?thesis
      by (simp add: to_string_def String_empty_def visible_absent)
  next
    case (Some a)
    with that show ?thesis
      by (simp add: to_string_present)
  qed
qed

theorem conversions_agree_witness:
  "valid example_store \<lparr>m_string = Some 2, m_offset = 4, m_length = 3\<rparr> \<and>
   to_string example_store \<lparr>m_string = Some 2, m_offset = 4, m_length = 3\<rparr> = Inr [98, 97, 114] \<and>
   operator_String example_store \<lparr>m_string = Some 2, m_offset = 4, m_length = 3\<rparr> = Inr [98, 97, 114] \<and>
   clone example_store \<lparr>m_string = Some 2, m_offset = 4, m_length = 3\<rparr> = Inr [98, 97, 114] \<and>
   m_string StringView_default = None \<and>
   to_string example_store StringView_default = Inr [] \<and>
   operator_String example_store StringView_default = Inr [] \<and>
   clone example_store StringView_default = Inr []"
proof -
  have alive: "example_store 2 = Some [102, 111, 111, 45, 98, 97, 114, 45, 98, 97, 122]"
    by (simp add: example_store_def)
  have ok: "valid example_store \<lparr>m_string = Some 2, m_offset = 4, m_length = 3\<rparr>"
    by (simp add: valid_def alive)
  have shown: "visible example_store \<lparr>m_string = Some 2, m_offset = 4, m_length = 3\<rparr> = [98, 97, 114]"
    by (simp add: visible_def alive)
  have absent: "m_string StringView_default = None"
    by (simp add: StringView_default_def)
  show ?thesis
    using ok absent
      conversions_agree [of example_store "\<lparr>m_string = Some 2, m_offset = 4, m_length = 3\<rparr>"]
      conversions_agree [of example_store StringView_default]
    by (simp add: shown)
qed

section \<open>Concatenation\<close>

lemma data_pointer_valid:
  assumes ok: "valid h v" and a: "m_string v = Some a" and s: "h a = Some s"
  shows "dangerous_pointer_to_underlying_data h v =
    Inr (Some (drop (unat (m_offset v)) (s @ [0])))"
proof -
  from valid_present [of h v a, OF ok a] s
  have range: "unat (m_offset v) + unat (m_length v) \<le> length s"
    by auto
  show ?thesis
    by (simp add: dangerous_pointer_to_underlying_data_def a deref_alive [of h a s, OF s]
        data_pointer_present [of v s, OF range])
qed

lemma append_visible:
  assumes ok: "valid h v" and a: "m_string v = Some a" and s: "h a = Some s"
  shows "String_append l (Some (drop (unat (m_offset v)) (s @ [0]))) (size_view v) =
    Inr (l @ visible h v)"
proof -
  from valid_present [of h v a, OF ok a] s
  have range: "unat (m_offset v) + unat (m_length v) \<le> length s"
    by auto
  then show ?thesis
    by (simp add: String_append_def size_view_def visible_present [of v a h s, OF a s])
qed

lemma concatenation_present:
  assumes ok: "valid h rhs" and a: "m_string rhs = Some a" and l: "h lhs = Some l"
  shows "operator_plus h lhs rhs = Inr (l @ visible h rhs)"
    and "operator_plus_assign h lhs rhs = Inr (h(lhs \<mapsto> l @ visible h rhs))"
proof -
  from valid_present [of h rhs a, OF ok a] obtain s where s: "h a = Some s"
    by auto
  have left: "deref h (Some lhs) = Inr l"
    by (rule deref_alive [of h lhs l, OF l])
  have pointer: "dangerous_pointer_to_underlying_data h rhs =
      Inr (Some (drop (unat (m_offset rhs)) (s @ [0])))"
    by (rule data_pointer_valid [of h rhs a s, OF ok a s])
  have appended: "String_append l (Some (drop (unat (m_offset rhs)) (s @ [0]))) (size_view rhs) =
      Inr (l @ visible h rhs)"
    by (rule append_visible [of h rhs a s, OF ok a s])
  show "operator_plus h lhs rhs = Inr (l @ visible h rhs)"
    by (simp only: operator_plus_def left String_clone_def Let_def pointer appended sum.case)
  show "operator_plus_assign h lhs rhs = Inr (h(lhs \<mapsto> l @ visible h rhs))"
    by (simp only: operator_plus_assign_def left pointer appended sum.case)
qed

text \<open>
  C7. The concatenation helpers copy the visible bytes of a view that is present, that
  is, of a valid view that has a String. \<open>operator+\<close> returns a new String: the bytes
  of the left operand followed by the visible bytes of the view; it reads the store and
  leaves it as it is, the left operand included. The result depends on the visible bytes
  only, not on the String the view points into: a present view with the same visible
  bytes gives the same result. \<open>operator+=\<close> appends the visible bytes to the left
  operand, when the left operand is not the String of the view (the contract of
  \<open>String::append\<close> leaves that case to the caller); the String of the view is then as
  it was, and the view is still valid and shows the same bytes. The example of the
  source: \<open>"abc"\<close> and the view of \<open>"cdefg"\<close> at offset 1 of length 3, whose visible
  bytes are \<open>"def"\<close>, give \<open>"abcdef"\<close>.

  Two things are not so for every valid view, and are left out. An absent view is valid
  and shows no bytes, but the helpers do not append zero bytes then: they abort on the
  assertion of \<open>dangerous_pointer_to_underlying_data\<close>. And a view that shows
  \<open>"bar"\<close> appended to \<open>"abc"\<close> gives \<open>"abcbar"\<close>, not \<open>"abcdef"\<close>. Both are
  shown at concrete inputs below.
\<close>

theorem concatenation_copies_visible:
  "valid h rhs \<Longrightarrow> m_string rhs = Some a \<Longrightarrow> h lhs = Some l \<Longrightarrow>
   operator_plus h lhs rhs = Inr (l @ visible h rhs) \<and>
   (valid h other \<and> m_string other = Some b \<and> visible h other = visible h rhs \<longrightarrow>
      operator_plus h lhs other = operator_plus h lhs rhs) \<and>
   (a \<noteq> lhs \<longrightarrow>
      operator_plus_assign h lhs rhs = Inr (h(lhs \<mapsto> l @ visible h rhs)) \<and>
      (h(lhs \<mapsto> l @ visible h rhs)) a = h a \<and>
      valid (h(lhs \<mapsto> l @ visible h rhs)) rhs \<and>
      visible (h(lhs \<mapsto> l @ visible h rhs)) rhs = visible h rhs)"
proof (intro conjI impI)
  assume ok: "valid h rhs" and a: "m_string rhs = Some a" and l: "h lhs = Some l"
  show plus: "operator_plus h lhs rhs = Inr (l @ visible h rhs)"
    by (rule concatenation_present(1) [of h rhs a lhs l, OF ok a l])
  show "operator_plus h lhs other = operator_plus h lhs rhs"
    if "valid h other \<and> m_string other = Some b \<and> visible h other = visible h rhs"
    using that plus concatenation_present(1) [of h other b lhs l] l by simp
  show "operator_plus_assign h lhs rhs = Inr (h(lhs \<mapsto> l @ visible h rhs))"
    by (rule concatenation_present(2) [of h rhs a lhs l, OF ok a l])
  assume "a \<noteq> lhs"
  then show "(h(lhs \<mapsto> l @ visible h rhs)) a = h a"
    by simp
  from \<open>a \<noteq> lhs\<close> ok show "valid (h(lhs \<mapsto> l @ visible h rhs)) rhs"
    by (simp add: valid_def a)
  from \<open>a \<noteq> lhs\<close> show "visible (h(lhs \<mapsto> l @ visible h rhs)) rhs = visible h rhs"
    by (simp add: visible_def a)
qed

theorem concatenation_copies_visible_witness:
  "valid example_store \<lparr>m_string = Some 4, m_offset = 1, m_length = 3\<rparr> \<and>
   example_store 0 = Some [97, 98, 99] \<and>
   operator_plus example_store 0 \<lparr>m_string = Some 4, m_offset = 1, m_length = 3\<rparr> =
     Inr [97, 98, 99, 100, 101, 102] \<and>
   operator_plus_assign example_store 0 \<lparr>m_string = Some 4, m_offset = 1, m_length = 3\<rparr> =
     Inr (example_store(0 \<mapsto> [97, 98, 99, 100, 101, 102])) \<and>
   valid example_store \<lparr>m_string = Some 2, m_offset = 4, m_length = 3\<rparr> \<and>
   valid example_store \<lparr>m_string = Some 3, m_offset = 3, m_length = 3\<rparr> \<and>
   operator_plus example_store 0 \<lparr>m_string = Some 3, m_offset = 3, m_length = 3\<rparr> =
     operator_plus example_store 0 \<lparr>m_string = Some 2, m_offset = 4, m_length = 3\<rparr>"
proof -
  have alive: "example_store 0 = Some [97, 98, 99]"
    by (simp add: example_store_def)
  have source: "example_store 4 = Some [99, 100, 101, 102, 103]"
    by (simp add: example_store_def)
  have ok: "valid example_store \<lparr>m_string = Some 4, m_offset = 1, m_length = 3\<rparr>"
    by (simp add: valid_def source)
  have shown: "visible example_store \<lparr>m_string = Some 4, m_offset = 1, m_length = 3\<rparr> = [100, 101, 102]"
    by (simp add: visible_def source)
  have ok2: "valid example_store \<lparr>m_string = Some 2, m_offset = 4, m_length = 3\<rparr>"
    by (simp add: valid_def example_store_def)
  have ok3: "valid example_store \<lparr>m_string = Some 3, m_offset = 3, m_length = 3\<rparr>"
    by (simp add: valid_def example_store_def)
  have same: "visible example_store \<lparr>m_string = Some 3, m_offset = 3, m_length = 3\<rparr> =
      visible example_store \<lparr>m_string = Some 2, m_offset = 4, m_length = 3\<rparr>"
    by (simp add: visible_def example_store_def)
  show ?thesis
    using alive ok ok2 ok3 same
      concatenation_copies_visible [of example_store
        "\<lparr>m_string = Some 4, m_offset = 1, m_length = 3\<rparr>" 4 0 "[97, 98, 99]"]
      concatenation_copies_visible [of example_store
        "\<lparr>m_string = Some 2, m_offset = 4, m_length = 3\<rparr>" 2 0 "[97, 98, 99]"
        "\<lparr>m_string = Some 3, m_offset = 3, m_length = 3\<rparr>" 3]
    by (simp add: shown)
qed

text \<open>
  Where the unrestricted statement fails. The default view is valid and shows no bytes,
  yet \<open>operator+\<close> and \<open>operator+=\<close> abort on it, where the left operand followed by
  no bytes would be \<open>"abc"\<close>. The view of \<open>"foo-bar-baz"\<close> at offset 4 of length 3
  shows \<open>"bar"\<close>, and \<open>"abc"\<close> with it is \<open>"abcbar"\<close>, which is not \<open>"abcdef"\<close>.
\<close>

theorem concatenation_copies_visible_counterexample:
  "valid example_store StringView_default \<and>
   visible example_store StringView_default = [] \<and>
   example_store 0 = Some [97, 98, 99] \<and>
   operator_plus example_store 0 StringView_default = Inl Abort \<and>
   operator_plus example_store 0 StringView_default \<noteq>
     Inr ([97, 98, 99] @ visible example_store StringView_default) \<and>
   operator_plus_assign example_store 0 StringView_default = Inl Abort \<and>
   operator_plus_assign example_store 0 StringView_default \<noteq>
     Inr (example_store(0 \<mapsto> [97, 98, 99] @ visible example_store StringView_default)) \<and>
   valid example_store \<lparr>m_string = Some 2, m_offset = 4, m_length = 3\<rparr> \<and>
   visible example_store \<lparr>m_string = Some 2, m_offset = 4, m_length = 3\<rparr> = [98, 97, 114] \<and>
   operator_plus example_store 0 \<lparr>m_string = Some 2, m_offset = 4, m_length = 3\<rparr> =
     Inr [97, 98, 99, 98, 97, 114] \<and>
   operator_plus example_store 0 \<lparr>m_string = Some 2, m_offset = 4, m_length = 3\<rparr> \<noteq>
     Inr [97, 98, 99, 100, 101, 102]"
proof -
  have absent: "dangerous_pointer_to_underlying_data example_store StringView_default = Inl Abort"
    by (simp add: dangerous_pointer_to_underlying_data_def StringView_default_def)
  have left: "deref example_store (Some 0) = Inr [97, 98, 99]"
    by (simp add: deref_def example_store_def)
  have plus: "operator_plus example_store 0 StringView_default = Inl Abort"
    by (simp add: operator_plus_def left absent)
  have assign: "operator_plus_assign example_store 0 StringView_default = Inl Abort"
    by (simp add: operator_plus_assign_def left absent)
  have bar: "operator_plus example_store 0 \<lparr>m_string = Some 2, m_offset = 4, m_length = 3\<rparr> =
      Inr [97, 98, 99, 98, 97, 114]"
    by (simp add: operator_plus_def left dangerous_pointer_to_underlying_data_def deref_def
        example_store_def ptr_add_def c_str_def String_clone_def String_append_def size_view_def)
  show ?thesis
    by (simp add: plus assign bar)
      (simp add: valid_def visible_def StringView_default_def example_store_def)
qed

section \<open>Equality of views\<close>

lemma memcmp_visible:
  assumes v: "valid h v" "m_string v = Some a" "h a = Some s"
    and w: "valid h w" "m_string w = Some b" "h b = Some t"
    and same: "m_length v = m_length w"
  shows "memcmp (Some (drop (unat (m_offset v)) (s @ [0])))
      (Some (drop (unat (m_offset w)) (t @ [0]))) (m_length v) =
    Inr (bytes_cmp (visible h v) (visible h w))"
proof -
  from valid_present [of h v a] v
  have rv: "unat (m_offset v) + unat (m_length v) \<le> length s"
    by auto
  from valid_present [of h w b] w same
  have rw: "unat (m_offset w) + unat (m_length v) \<le> length t"
    by auto
  show ?thesis
    using rv rw same v(2,3) w(2,3) by (auto simp: memcmp_def visible_def)
qed

lemma operator_eq_valid:
  assumes v: "valid h v" and w: "valid h w"
  shows "operator_eq h v w = Inr (visible h v = visible h w)"
proof (cases "m_length v = m_length w")
  case False
  with length_visible [OF v] length_visible [OF w] have "visible h v \<noteq> visible h w"
    by (metis word_unat_eq_iff)
  with False show ?thesis
    by (simp add: operator_eq_def)
next
  case same: True
  show ?thesis
  proof (cases "m_length v = 0")
    case True
    with same length_visible [OF v] length_visible [OF w] show ?thesis
      by (simp add: operator_eq_def)
  next
    case False
    with v obtain a where a: "m_string v = Some a"
      by (cases "m_string v") (auto simp: valid_def)
    from False same w obtain b where b: "m_string w = Some b"
      by (cases "m_string w") (auto simp: valid_def)
    from valid_present [of h v a, OF v a] obtain s where s: "h a = Some s"
      and rv: "unat (m_offset v) + unat (m_length v) \<le> length s"
      by auto
    from valid_present [of h w b, OF w b] obtain t where t: "h b = Some t"
      and rw: "unat (m_offset w) + unat (m_length w) \<le> length t"
      by auto
    show ?thesis
    proof (cases "m_string v = m_string w \<and> m_offset v = m_offset w")
      case True
      with same have "visible h v = visible h w"
        by (simp add: visible_def split: option.splits)
      with same False True show ?thesis
        by (simp add: operator_eq_def)
    next
      case distinct: False
      define p where "p = Some (drop (unat (m_offset v)) (s @ [0]))"
      define q where "q = Some (drop (unat (m_offset w)) (t @ [0]))"
      have pv: "ptr_add (c_str s) (m_offset v) = Inr p"
        unfolding p_def by (rule data_pointer_present [of v s, OF rv])
      have qw: "ptr_add (c_str t) (m_offset w) = Inr q"
        unfolding q_def by (rule data_pointer_present [of w t, OF rw])
      have compared: "memcmp p q (m_length v) = Inr (bytes_cmp (visible h v) (visible h w))"
        unfolding p_def q_def by (rule memcmp_visible [OF v a s w b t same])
      have "operator_eq h v w = Inr (bytes_cmp (visible h v) (visible h w) = 0)"
        using same False distinct compared
        by (auto simp: operator_eq_def a b deref_alive [of h a s, OF s]
            deref_alive [of h b t, OF t] pv qw)
      then show ?thesis
        using same by (simp add: bytes_cmp_zero length_visible [OF v] length_visible [OF w])
    qed
  qed
qed

text \<open>
  C1. Equality of two views. When the lengths differ the result is false. When both
  lengths are 0 the result is true, whatever the Strings are and whether they are
  present. When the lengths, the String pointers and the offsets are the same the
  result is true, and no byte is read: this holds of views that are not valid too.
  On valid views the result is true iff the lengths are equal and the visible bytes are
  the same, so that two views into different Strings that show the same bytes are equal.
\<close>

theorem view_equality:
  "(m_length v \<noteq> m_length w \<longrightarrow> operator_eq h v w = Inr False) \<and>
   (m_length v = 0 \<and> m_length w = 0 \<longrightarrow> operator_eq h v w = Inr True) \<and>
   (m_length v = m_length w \<and> m_string v = m_string w \<and> m_offset v = m_offset w \<longrightarrow>
      operator_eq h v w = Inr True) \<and>
   (valid h v \<and> valid h w \<longrightarrow>
      operator_eq h v w = Inr (m_length v = m_length w \<and> visible h v = visible h w))"
proof (intro conjI impI)
  show "operator_eq h v w = Inr False" if "m_length v \<noteq> m_length w"
    using that by (simp add: operator_eq_def)
  show "operator_eq h v w = Inr True" if "m_length v = 0 \<and> m_length w = 0"
    using that by (simp add: operator_eq_def)
  show "operator_eq h v w = Inr True"
    if "m_length v = m_length w \<and> m_string v = m_string w \<and> m_offset v = m_offset w"
    using that by (simp add: operator_eq_def)
  show "operator_eq h v w = Inr (m_length v = m_length w \<and> visible h v = visible h w)"
    if "valid h v \<and> valid h w"
  proof -
    from that have v: "valid h v" and w: "valid h w"
      by simp_all
    have "visible h v = visible h w \<Longrightarrow> m_length v = m_length w"
      using length_visible [OF v] length_visible [OF w] by (simp add: word_unat_eq_iff)
    then show ?thesis
      by (auto simp: operator_eq_valid [OF v w])
  qed
qed

theorem view_equality_witness:
  "m_length \<lparr>m_string = Some 0, m_offset = 0, m_length = 3\<rparr> \<noteq>
     m_length \<lparr>m_string = Some 0, m_offset = 1, m_length = 2\<rparr> \<and>
   operator_eq example_store \<lparr>m_string = Some 0, m_offset = 0, m_length = 3\<rparr>
     \<lparr>m_string = Some 0, m_offset = 1, m_length = 2\<rparr> = Inr False \<and>
   m_length StringView_default = 0 \<and>
   operator_eq example_store StringView_default
     \<lparr>m_string = Some 3, m_offset = 0, m_length = 0\<rparr> = Inr True \<and>
   operator_eq example_store \<lparr>m_string = Some 3, m_offset = 0, m_length = 0\<rparr>
     StringView_default = Inr True \<and>
   operator_eq example_store \<lparr>m_string = Some 0, m_offset = 0, m_length = 3\<rparr>
     \<lparr>m_string = Some 0, m_offset = 0, m_length = 3\<rparr> = Inr True \<and>
   valid example_store \<lparr>m_string = Some 2, m_offset = 4, m_length = 3\<rparr> \<and>
   valid example_store \<lparr>m_string = Some 3, m_offset = 3, m_length = 3\<rparr> \<and>
   valid example_store \<lparr>m_string = Some 0, m_offset = 0, m_length = 3\<rparr> \<and>
   operator_eq example_store \<lparr>m_string = Some 2, m_offset = 4, m_length = 3\<rparr>
     \<lparr>m_string = Some 3, m_offset = 3, m_length = 3\<rparr> = Inr True \<and>
   operator_eq example_store \<lparr>m_string = Some 2, m_offset = 4, m_length = 3\<rparr>
     \<lparr>m_string = Some 0, m_offset = 0, m_length = 3\<rparr> = Inr False"
proof -
  have ok0: "valid example_store \<lparr>m_string = Some 0, m_offset = 0, m_length = 3\<rparr>"
    by (simp add: valid_def example_store_def)
  have ok2: "valid example_store \<lparr>m_string = Some 2, m_offset = 4, m_length = 3\<rparr>"
    by (simp add: valid_def example_store_def)
  have ok3: "valid example_store \<lparr>m_string = Some 3, m_offset = 3, m_length = 3\<rparr>"
    by (simp add: valid_def example_store_def)
  have shown0: "visible example_store \<lparr>m_string = Some 0, m_offset = 0, m_length = 3\<rparr> =
      [97, 98, 99]"
    by (simp add: visible_def example_store_def)
  have shown2: "visible example_store \<lparr>m_string = Some 2, m_offset = 4, m_length = 3\<rparr> =
      [98, 97, 114]"
    by (simp add: visible_def example_store_def)
  have shown3: "visible example_store \<lparr>m_string = Some 3, m_offset = 3, m_length = 3\<rparr> =
      [98, 97, 114]"
    by (simp add: visible_def example_store_def)
  show ?thesis
    using ok0 ok2 ok3
      view_equality [of "\<lparr>m_string = Some 0, m_offset = 0, m_length = 3\<rparr>"
        "\<lparr>m_string = Some 0, m_offset = 1, m_length = 2\<rparr>" example_store]
      view_equality [of StringView_default
        "\<lparr>m_string = Some 3, m_offset = 0, m_length = 0\<rparr>" example_store]
      view_equality [of "\<lparr>m_string = Some 3, m_offset = 0, m_length = 0\<rparr>"
        StringView_default example_store]
      view_equality [of "\<lparr>m_string = Some 0, m_offset = 0, m_length = 3\<rparr>"
        "\<lparr>m_string = Some 0, m_offset = 0, m_length = 3\<rparr>" example_store]
      view_equality [of "\<lparr>m_string = Some 2, m_offset = 4, m_length = 3\<rparr>"
        "\<lparr>m_string = Some 3, m_offset = 3, m_length = 3\<rparr>" example_store]
      view_equality [of "\<lparr>m_string = Some 2, m_offset = 4, m_length = 3\<rparr>"
        "\<lparr>m_string = Some 0, m_offset = 0, m_length = 3\<rparr>" example_store]
    by (simp add: shown0 shown2 shown3 StringView_default_def)
qed

section \<open>Three-way comparison\<close>

text \<open>The loop counter of \<open>cmp\<close> stays below a \<open>size_t\<close>: adding 1 does not wrap.\<close>

lemma unat_succ:
  fixes i n :: "'a::len word"
  assumes "i < n"
  shows "unat (i + 1) = Suc (unat i)"
proof -
  from assms have "unat i < unat n"
    by (simp add: word_less_nat_alt)
  moreover have "unat n < 2 ^ LENGTH('a)"
    by (rule unsigned_less)
  ultimately have "Suc (unat i) < 2 ^ LENGTH('a)"
    by linarith
  then have "unat i + unat (1 :: 'a word) < 2 ^ LENGTH('a)"
    by simp
  then have "unat (i + 1) = unat i + unat (1 :: 'a word)"
    by (simp only: unat_add_lem)
  then show ?thesis
    by simp
qed

lemma succ_le:
  fixes i n :: "'a::len word"
  assumes "i < n"
  shows "i + 1 \<le> n"
  using assms unat_succ [OF assms] by (simp add: word_le_nat_alt word_less_nat_alt)

text \<open>Inside a valid view, the unchecked access reads the visible bytes.\<close>

lemma operator_index_visible:
  assumes ok: "valid h v" and i: "i < m_length v"
  shows "operator_index h v i = Inr (visible h v ! unat i)"
proof -
  from i have pos: "unat i < unat (m_length v)"
    by (simp add: word_less_nat_alt)
  with ok obtain a where a: "m_string v = Some a"
    by (cases "m_string v") (auto simp: valid_def)
  from valid_present [of h v a, OF ok a] obtain s where s: "h a = Some s"
    and fits: "length s < 2 ^ 64"
    and range: "unat (m_offset v) + unat (m_length v) \<le> length s"
    by auto
  from pos range fits have "unat (m_offset v) + unat i < 2 ^ LENGTH(64)"
    by simp
  then have sum: "unat (m_offset v + i) = unat (m_offset v) + unat i"
    by (simp only: unat_add_lem)
  with pos range have inside: "unat (m_offset v + i) < length s"
    by simp
  have "operator_index h v i = Inr (s ! unat (m_offset v + i))"
    using inside
    by (simp add: operator_index_def a deref_alive [of h a s, OF s] String_index_def nth_append)
  moreover have "visible h v ! unat i = s ! unat (m_offset v + i)"
    using pos range by (simp add: visible_present [of v a h s, OF a s] sum)
  ultimately show ?thesis
    by simp
qed

lemma lexicographic_cmp_Nil_left: "lexicographic_cmp [] ys = (if ys = [] then 0 else - 1)"
  by (cases ys) simp_all

lemma lexicographic_cmp_Nil_right: "lexicographic_cmp xs [] = (if xs = [] then 0 else 1)"
  by (cases xs) simp_all

lemma lexicographic_cmp_at_end:
  assumes "n = min (length xs) (length ys)"
  shows "lexicographic_cmp (drop n xs) (drop n ys) =
    (if length xs = length ys then 0 else if length xs < length ys then - 1 else 1)"
proof (cases "length xs \<le> length ys")
  case True
  with assms have "drop n xs = []"
    by simp
  with True assms show ?thesis
    by (auto simp: lexicographic_cmp_Nil_left)
next
  case False
  with assms have "drop n ys = []"
    by simp
  with False assms show ?thesis
    by (auto simp: lexicographic_cmp_Nil_right)
qed

text \<open>
  The invariant of the loop: run from the index \<open>i\<close> on, it returns the comparison,
  in the words of the specification, of what the two views show from \<open>i\<close> on.
\<close>

lemma cmp_loop_suffix:
  "valid h v \<Longrightarrow> valid h w \<Longrightarrow> i \<le> min (m_length v) (m_length w) \<Longrightarrow>
   cmp_loop h v w i =
     Inr (lexicographic_cmp (drop (unat i) (visible h v)) (drop (unat i) (visible h w)))"
proof (induction h v w i rule: cmp_loop.induct)
  case (1 h v w i)
  note v = "1.prems"(1) and w = "1.prems"(2)
  let ?xs = "visible h v" and ?ys = "visible h w"
  have lx: "length ?xs = unat (m_length v)" and ly: "length ?ys = unat (m_length w)"
    using v w by (simp_all add: length_visible)
  show ?case
  proof (cases "i < min (m_length v) (m_length w)")
    case True
    then have iv: "i < m_length v" and iw: "i < m_length w"
      by simp_all
    have c1: "operator_index h v i = Inr (?xs ! unat i)"
      by (rule operator_index_visible [OF v iv])
    have c2: "operator_index h w i = Inr (?ys ! unat i)"
      by (rule operator_index_visible [OF w iw])
    from iv iw have nx: "unat i < length ?xs" and ny: "unat i < length ?ys"
      by (simp_all add: lx ly word_less_nat_alt)
    have dx: "drop (unat i) ?xs = ?xs ! unat i # drop (Suc (unat i)) ?xs"
      using nx by (simp add: Cons_nth_drop_Suc)
    have dy: "drop (unat i) ?ys = ?ys ! unat i # drop (Suc (unat i)) ?ys"
      using ny by (simp add: Cons_nth_drop_Suc)
    have next_i: "unat (i + 1) = Suc (unat i)"
      by (rule unat_succ [OF True])
    have bound: "i + 1 \<le> min (m_length v) (m_length w)"
      by (rule succ_le [OF True])
    have unfolded: "lexicographic_cmp (drop (unat i) ?xs) (drop (unat i) ?ys) =
        (if ?xs ! unat i < ?ys ! unat i then - 1
         else if ?ys ! unat i < ?xs ! unat i then 1
         else lexicographic_cmp (drop (Suc (unat i)) ?xs) (drop (Suc (unat i)) ?ys))"
      by (subst dx, subst dy) simp
    show ?thesis
    proof (cases "?xs ! unat i < ?ys ! unat i \<or> ?ys ! unat i < ?xs ! unat i")
      case True
      then show ?thesis
        using \<open>i < min (m_length v) (m_length w)\<close>
        by (subst cmp_loop.simps) (auto simp: c1 c2 unfolded)
    next
      case False
      then have "cmp_loop h v w i = cmp_loop h v w (i + 1)"
        using \<open>i < min (m_length v) (m_length w)\<close>
        by (subst cmp_loop.simps) (simp add: c1 c2)
      also have "\<dots> = Inr (lexicographic_cmp (drop (unat (i + 1)) ?xs) (drop (unat (i + 1)) ?ys))"
        using "1.IH" [OF \<open>i < min (m_length v) (m_length w)\<close> c1 c2 _ _ v w bound] False
        by auto
      also have "\<dots> = Inr (lexicographic_cmp (drop (unat i) ?xs) (drop (unat i) ?ys))"
        using False by (simp add: unfolded next_i)
      finally show ?thesis .
    qed
  next
    case False
    with "1.prems"(3) have at_end: "i = min (m_length v) (m_length w)"
      by (simp only: not_less antisym)
    then have n: "unat i = min (length ?xs) (length ?ys)"
      by (simp add: lx ly min_def word_le_nat_alt)
    have same: "m_length v = m_length w \<longleftrightarrow> length ?xs = length ?ys"
      by (simp add: lx ly word_unat_eq_iff)
    have less: "m_length v < m_length w \<longleftrightarrow> length ?xs < length ?ys"
      by (simp add: lx ly word_less_nat_alt)
    from n have "lexicographic_cmp (drop (unat i) ?xs) (drop (unat i) ?ys) =
        (if length ?xs = length ?ys then 0 else if length ?xs < length ?ys then - 1 else 1)"
      by (rule lexicographic_cmp_at_end)
    then show ?thesis
      using False by (subst cmp_loop.simps) (auto simp: same less)
  qed
qed

lemma cmp_valid:
  assumes v: "valid h v" and w: "valid h w"
  shows "cmp h v w = Inr (lexicographic_cmp (visible h v) (visible h w))"
proof (cases "m_length v = 0")
  case True
  with length_visible [OF v] have "visible h v = []"
    by simp
  moreover have "visible h w = [] \<longleftrightarrow> unat (m_length w) = 0"
    using length_visible [OF w] by (metis length_0_conv)
  then have "m_length w = 0 \<longleftrightarrow> visible h w = []"
    by (simp add: unat_eq_0)
  ultimately show ?thesis
    using True by (simp add: cmp_def lexicographic_cmp_Nil_left)
next
  case False
  then have "cmp h v w = cmp_loop h v w 0"
    by (simp add: cmp_def)
  also have "\<dots> = Inr (lexicographic_cmp (drop (unat (0 :: size_t)) (visible h v))
      (drop (unat (0 :: size_t)) (visible h w)))"
    by (rule cmp_loop_suffix [OF v w]) simp
  finally show ?thesis
    by simp
qed

lemma lexicographic_cmp_refl: "lexicographic_cmp xs xs = 0"
  by (induction xs) simp_all

lemma lexicographic_cmp_flip: "lexicographic_cmp ys xs = - lexicographic_cmp xs ys"
  by (induction xs ys rule: lexicographic_cmp.induct) auto

lemma lexicographic_cmp_equal: "lexicographic_cmp xs ys = 0 \<longleftrightarrow> xs = ys"
  by (induction xs ys rule: lexicographic_cmp.induct) auto

lemma lexicographic_cmp_less:
  "lexicographic_cmp xs ys = - 1 \<longleftrightarrow> (xs, ys) \<in> lexord {(x, y). x < y}"
  by (induction xs ys rule: lexicographic_cmp.induct) (auto simp: neq_Nil_conv)

lemma lexicographic_cmp_greater:
  "lexicographic_cmp xs ys = 1 \<longleftrightarrow> (ys, xs) \<in> lexord {(x, y). x < y}"
  by (induction xs ys rule: lexicographic_cmp.induct) (auto simp: neq_Nil_conv)

text \<open>
  C2. On valid views \<open>a\<close> and \<open>b\<close>, \<open>cmp\<close> is the lexicographic three-way
  comparison of their visible bytes, read as unsigned values: bytes are compared pairwise
  up to the shorter length, the first difference gives -1 or 1, and without a difference
  the result is 0 for equal lengths, -1 when \<open>a\<close> is shorter and 1 when it is longer.
  So the result is 0 iff the visible bytes are the same, -1 iff those of \<open>a\<close> come
  before those of \<open>b\<close> in the lexicographic order, and 1 iff they come after. A view
  of length 0, present or absent, compares equal to a view of length 0 and less than
  every view that is not empty; this needs no validity.
\<close>

theorem cmp_lexicographic:
  "(valid h a \<and> valid h b \<longrightarrow>
      cmp h a b = Inr (lexicographic_cmp (visible h a) (visible h b)) \<and>
      (cmp h a b = Inr 0 \<longleftrightarrow> visible h a = visible h b) \<and>
      (cmp h a b = Inr (- 1) \<longleftrightarrow> (visible h a, visible h b) \<in> lexord {(x, y). x < y}) \<and>
      (cmp h a b = Inr 1 \<longleftrightarrow> (visible h b, visible h a) \<in> lexord {(x, y). x < y})) \<and>
   (m_length a = 0 \<longrightarrow> cmp h a b = Inr (if m_length b = 0 then 0 else - 1))"
proof (intro conjI impI)
  show "cmp h a b = Inr (if m_length b = 0 then 0 else - 1)" if "m_length a = 0"
    using that by (simp add: cmp_def)
next
  assume "valid h a \<and> valid h b"
  then have result: "cmp h a b = Inr (lexicographic_cmp (visible h a) (visible h b))"
    by (simp add: cmp_valid)
  then show "cmp h a b = Inr (lexicographic_cmp (visible h a) (visible h b))" .
  from result show "cmp h a b = Inr 0 \<longleftrightarrow> visible h a = visible h b"
    by (simp add: lexicographic_cmp_equal)
  from result show "cmp h a b = Inr (- 1) \<longleftrightarrow>
      (visible h a, visible h b) \<in> lexord {(x, y). x < y}"
    by (simp add: lexicographic_cmp_less)
  from result show "cmp h a b = Inr 1 \<longleftrightarrow>
      (visible h b, visible h a) \<in> lexord {(x, y). x < y}"
    by (simp add: lexicographic_cmp_greater)
qed

theorem cmp_lexicographic_witness:
  "valid example_store \<lparr>m_string = Some 5, m_offset = 3, m_length = 3\<rparr> \<and>
   valid example_store \<lparr>m_string = Some 5, m_offset = 0, m_length = 3\<rparr> \<and>
   valid example_store \<lparr>m_string = Some 0, m_offset = 0, m_length = 3\<rparr> \<and>
   valid example_store \<lparr>m_string = Some 5, m_offset = 0, m_length = 6\<rparr> \<and>
   cmp example_store \<lparr>m_string = Some 5, m_offset = 3, m_length = 3\<rparr>
     \<lparr>m_string = Some 5, m_offset = 0, m_length = 3\<rparr> = Inr 1 \<and>
   cmp example_store \<lparr>m_string = Some 5, m_offset = 0, m_length = 3\<rparr>
     \<lparr>m_string = Some 5, m_offset = 3, m_length = 3\<rparr> = Inr (- 1) \<and>
   cmp example_store \<lparr>m_string = Some 5, m_offset = 0, m_length = 3\<rparr>
     \<lparr>m_string = Some 0, m_offset = 0, m_length = 3\<rparr> = Inr 0 \<and>
   cmp example_store \<lparr>m_string = Some 5, m_offset = 0, m_length = 3\<rparr>
     \<lparr>m_string = Some 5, m_offset = 0, m_length = 6\<rparr> = Inr (- 1) \<and>
   m_length StringView_default = 0 \<and>
   cmp example_store StringView_default StringView_default = Inr 0 \<and>
   cmp example_store StringView_default
     \<lparr>m_string = Some 0, m_offset = 0, m_length = 3\<rparr> = Inr (- 1)"
proof -
  have ok_def: "valid example_store \<lparr>m_string = Some 5, m_offset = 3, m_length = 3\<rparr>"
    by (simp add: valid_def example_store_def)
  have ok_abc: "valid example_store \<lparr>m_string = Some 5, m_offset = 0, m_length = 3\<rparr>"
    by (simp add: valid_def example_store_def)
  have ok_0: "valid example_store \<lparr>m_string = Some 0, m_offset = 0, m_length = 3\<rparr>"
    by (simp add: valid_def example_store_def)
  have ok_all: "valid example_store \<lparr>m_string = Some 5, m_offset = 0, m_length = 6\<rparr>"
    by (simp add: valid_def example_store_def)
  have shown_def: "visible example_store \<lparr>m_string = Some 5, m_offset = 3, m_length = 3\<rparr> =
      [100, 101, 102]"
    by (simp add: visible_def example_store_def)
  have shown_abc: "visible example_store \<lparr>m_string = Some 5, m_offset = 0, m_length = 3\<rparr> =
      [97, 98, 99]"
    by (simp add: visible_def example_store_def)
  have shown_0: "visible example_store \<lparr>m_string = Some 0, m_offset = 0, m_length = 3\<rparr> =
      [97, 98, 99]"
    by (simp add: visible_def example_store_def)
  have shown_all: "visible example_store \<lparr>m_string = Some 5, m_offset = 0, m_length = 6\<rparr> =
      [97, 98, 99, 100, 101, 102]"
    by (simp add: visible_def example_store_def)
  show ?thesis
    using ok_def ok_abc ok_0 ok_all
      cmp_lexicographic [of example_store "\<lparr>m_string = Some 5, m_offset = 3, m_length = 3\<rparr>"
        "\<lparr>m_string = Some 5, m_offset = 0, m_length = 3\<rparr>"]
      cmp_lexicographic [of example_store "\<lparr>m_string = Some 5, m_offset = 0, m_length = 3\<rparr>"
        "\<lparr>m_string = Some 5, m_offset = 3, m_length = 3\<rparr>"]
      cmp_lexicographic [of example_store "\<lparr>m_string = Some 5, m_offset = 0, m_length = 3\<rparr>"
        "\<lparr>m_string = Some 0, m_offset = 0, m_length = 3\<rparr>"]
      cmp_lexicographic [of example_store "\<lparr>m_string = Some 5, m_offset = 0, m_length = 3\<rparr>"
        "\<lparr>m_string = Some 5, m_offset = 0, m_length = 6\<rparr>"]
      cmp_lexicographic [of example_store StringView_default StringView_default]
      cmp_lexicographic [of example_store StringView_default
        "\<lparr>m_string = Some 0, m_offset = 0, m_length = 3\<rparr>"]
    by (simp add: shown_def shown_abc shown_0 shown_all StringView_default_def)
qed

text \<open>
  C3. On valid views \<open>cmp\<close> is antisymmetric, and zero on equal arguments: \<open>cmp\<close>
  returns on \<open>a\<close> and \<open>b\<close>, as it does on \<open>b\<close> and \<open>a\<close>, and the two results are
  opposite; on \<open>a\<close> and \<open>a\<close> it returns 0.
\<close>

theorem cmp_antisymmetric:
  "valid h a \<Longrightarrow> valid h b \<Longrightarrow>
   (\<exists>r. cmp h a b = Inr r \<and> cmp h b a = Inr (- r)) \<and> cmp h a a = Inr 0"
  by (simp add: cmp_valid lexicographic_cmp_refl lexicographic_cmp_flip [of "visible h a"])

theorem cmp_antisymmetric_witness:
  "valid example_store \<lparr>m_string = Some 5, m_offset = 3, m_length = 3\<rparr> \<and>
   valid example_store \<lparr>m_string = Some 5, m_offset = 0, m_length = 3\<rparr> \<and>
   cmp example_store \<lparr>m_string = Some 5, m_offset = 3, m_length = 3\<rparr>
     \<lparr>m_string = Some 5, m_offset = 0, m_length = 3\<rparr> = Inr 1 \<and>
   cmp example_store \<lparr>m_string = Some 5, m_offset = 0, m_length = 3\<rparr>
     \<lparr>m_string = Some 5, m_offset = 3, m_length = 3\<rparr> = Inr (- 1) \<and>
   cmp example_store \<lparr>m_string = Some 5, m_offset = 3, m_length = 3\<rparr>
     \<lparr>m_string = Some 5, m_offset = 3, m_length = 3\<rparr> = Inr 0"
proof -
  have ok_def: "valid example_store \<lparr>m_string = Some 5, m_offset = 3, m_length = 3\<rparr>"
    by (simp add: valid_def example_store_def)
  have ok_abc: "valid example_store \<lparr>m_string = Some 5, m_offset = 0, m_length = 3\<rparr>"
    by (simp add: valid_def example_store_def)
  have shown_def: "visible example_store \<lparr>m_string = Some 5, m_offset = 3, m_length = 3\<rparr> =
      [100, 101, 102]"
    by (simp add: visible_def example_store_def)
  have shown_abc: "visible example_store \<lparr>m_string = Some 5, m_offset = 0, m_length = 3\<rparr> =
      [97, 98, 99]"
    by (simp add: visible_def example_store_def)
  have "cmp example_store \<lparr>m_string = Some 5, m_offset = 3, m_length = 3\<rparr>
      \<lparr>m_string = Some 5, m_offset = 0, m_length = 3\<rparr> = Inr 1"
    by (simp add: cmp_valid [OF ok_def ok_abc] shown_def shown_abc)
  then show ?thesis
    using ok_def ok_abc cmp_antisymmetric [OF ok_def ok_abc]
    by simp
qed

section \<open>Equality with a C string\<close>

lemma strlen_cstr:
  assumes "0 \<in> set bs" and "length bs < 2 ^ 64"
  shows "strlen (Some bs) = Inr (of_nat (length (cstr_bytes bs)))"
    and "unat (of_nat (length (cstr_bytes bs)) :: size_t) = length (cstr_bytes bs)"
    and "take (length (cstr_bytes bs)) bs = cstr_bytes bs"
    and "length (cstr_bytes bs) \<le> length bs"
proof -
  show "strlen (Some bs) = Inr (of_nat (length (cstr_bytes bs)))"
    using assms by (simp add: strlen_def cstr_bytes_def)
  show le: "length (cstr_bytes bs) \<le> length bs"
    by (simp add: cstr_bytes_def length_takeWhile_le)
  with assms(2) have "length (cstr_bytes bs) < 2 ^ 64"
    by simp
  then show "unat (of_nat (length (cstr_bytes bs)) :: size_t) = length (cstr_bytes bs)"
    by (simp add: unat_of_nat)
  show "take (length (cstr_bytes bs)) bs = cstr_bytes bs"
    unfolding cstr_bytes_def by (rule takeWhile_eq_take [symmetric])
qed

text \<open>
  On a C string that is not the null pointer, equality with a valid view holds iff the
  visible bytes of the view are the bytes of the C string: the lengths are equal and the
  bytes match. The absent view and a present view of length 0 both show no bytes, so
  they give the same result there.
\<close>

lemma cstr_equality_valid:
  assumes ok: "valid h v" and terminated: "0 \<in> set bs" and fits: "length bs < 2 ^ 64"
  shows "operator_eq_cstr h v (Some bs) = Inr (visible h v = cstr_bytes bs)"
proof -
  let ?cs = "cstr_bytes bs"
  let ?n = "of_nat (length ?cs) :: size_t"
  note facts = strlen_cstr [OF terminated fits]
  show ?thesis
  proof (cases "m_string v")
    case None
    with ok have "visible h v = []"
      by (simp add: visible_def)
    moreover have "?n = 0 \<longleftrightarrow> ?cs = []"
      using facts(2) by (metis length_0_conv unat_eq_0)
    ultimately show ?thesis
      using None by (auto simp: operator_eq_cstr_def facts(1))
  next
    case (Some a)
    from valid_present [of h v a, OF ok Some] obtain s where s: "h a = Some s"
      and range: "unat (m_offset v) + unat (m_length v) \<le> length s"
      by auto
    have shown: "visible h v = take (unat (m_length v)) (drop (unat (m_offset v)) s)"
      by (rule visible_present [of v a h s, OF Some s])
    show ?thesis
    proof (cases "m_length v = ?n")
      case False
      then have "unat (m_length v) \<noteq> length ?cs"
        using facts(2) by (auto simp: word_unat_eq_iff)
      with length_visible [OF ok] have "visible h v \<noteq> ?cs"
        by auto
      with False show ?thesis
        by (simp add: operator_eq_cstr_def facts(1) Some)
    next
      case True
      then have len: "unat (m_length v) = length ?cs"
        using facts(2) by simp
      define p where "p = Some (drop (unat (m_offset v)) (s @ [0]))"
      have pv: "ptr_add (c_str s) (m_offset v) = Inr p"
        unfolding p_def by (rule data_pointer_present [of v s, OF range])
      have "memcmp p (Some bs) (m_length v) = Inr (bytes_cmp (visible h v) ?cs)"
        using range facts(3,4) by (auto simp: p_def memcmp_def len shown)
      then have "operator_eq_cstr h v (Some bs) = Inr (bytes_cmp (visible h v) ?cs = 0)"
        using True by (simp add: operator_eq_cstr_def facts(1) Some deref_alive [of h a s, OF s] pv)
      then show ?thesis
        using len by (simp add: bytes_cmp_zero length_visible [OF ok])
    qed
  qed
qed

text \<open>An absent view equals the null C string, and equals the empty C string.\<close>

lemma cstr_equality_absent:
  "m_string v = None \<Longrightarrow> operator_eq_cstr h v None = Inr True"
  "m_string v = None \<Longrightarrow> operator_eq_cstr h v (Some (0 # bs)) = Inr True"
  by (simp_all add: operator_eq_cstr_def strlen_def)

text \<open>
  C5. Equality of a view with a zero-terminated C string; in particular a present view of
  length 0 is to give the same result as the absent view for every C string, the null
  pointer included. At the null pointer the code does not do so. The absent view and
  the view of length 0 at the start of \<open>"abc"\<close> are equal as views, and the absent
  view equals the null C string; but with the present view the first test of
  \<open>operator==(const char *)\<close> fails, and the null pointer goes to \<open>strlen\<close>, whose
  behaviour is then undefined.
\<close>

theorem cstr_equality_null_present:
  "valid example_store \<lparr>m_string = Some 0, m_offset = 0, m_length = 0\<rparr> \<and>
   operator_eq example_store StringView_default
     \<lparr>m_string = Some 0, m_offset = 0, m_length = 0\<rparr> = Inr True \<and>
   operator_eq_cstr example_store StringView_default None = Inr True \<and>
   operator_eq_cstr example_store \<lparr>m_string = Some 0, m_offset = 0, m_length = 0\<rparr> None =
     Inl Undefined"
  by (simp add: valid_def example_store_def operator_eq_def StringView_default_def
      operator_eq_cstr_def strlen_def)

end
